theory Spec2Isabelle
  imports Complex_Main "HOL-Library.AList" "HOL-Library.Multiset"
begin

section \<open>Exceptions\<close>

text \<open>
  The exceptions that the crawl engine raises or lets through. \<open>QueryError\<close> is the
  class of that name (declared in \<^verbatim>\<open>src/base.py\<close> and in
  \<^verbatim>\<open>social_scan_platforms.py\<close>); \<open>RequestException\<close> stands for
  \<^verbatim>\<open>requests.exceptions.RequestException\<close> and its subclasses (connection reset, DNS
  failure, timeout); \<open>KeyError\<close> and \<open>ValueError\<close> are the built-in ones; any other
  exception is \<open>OtherError\<close>.
\<close>

datatype error =
    QueryError string
  | RequestException string
  | KeyError string
  | ValueError string
  | OtherError string

section \<open>Token cache (\<^verbatim>\<open>PlatformChecker.get_token\<close>)\<close>

definition TOKEN_ERROR_MESSAGE :: string where
  "TOKEN_ERROR_MESSAGE =
     ''Could not retrieve token. You might be sending too many requests. Use a proxy or wait before trying again.''"

text \<open>
  The fields of a \<^verbatim>\<open>PlatformChecker\<close> instance that \<^verbatim>\<open>get_token\<close> reads and
  writes, as \<^verbatim>\<open>__init__\<close> sets them, and a counter of the calls made to the
  subclass's \<^verbatim>\<open>prerequest\<close> method.
\<close>

record 't checker =
  prerequest_sent :: bool
  token :: "'t option"
  prerequest_calls :: nat

definition init_checker :: "'t checker" where
  "init_checker = \<lparr>prerequest_sent = False, token = None, prerequest_calls = 0\<rparr>"

text \<open>
  \<^verbatim>\<open>prerequest\<close> talks to the network: its \<open>n\<close>-th call (counted from 0) returns a
  token, returns \<^verbatim>\<open>None\<close> (\<open>Inr None\<close>) or raises (\<open>Inl e\<close>). The assignment
  \<^verbatim>\<open>self.token = self.prerequest()\<close> comes before
  \<^verbatim>\<open>self.prerequest_sent = True\<close>, so an exception leaves both fields as they were.
\<close>

definition get_token ::
  "(nat \<Rightarrow> error + 't option) \<Rightarrow> 't checker \<Rightarrow> (error + 't) \<times> 't checker" where
  "get_token prerequest s =
     (if prerequest_sent s then
        (case token s of
           None \<Rightarrow> (Inl (QueryError TOKEN_ERROR_MESSAGE), s)
         | Some t \<Rightarrow> (Inr t, s))
      else
        (case prerequest (prerequest_calls s) of
           Inl e \<Rightarrow> (Inl e, s\<lparr>prerequest_calls := Suc (prerequest_calls s)\<rparr>)
         | Inr tok \<Rightarrow>
             (let s' = s\<lparr>token := tok, prerequest_sent := True,
                          prerequest_calls := Suc (prerequest_calls s)\<rparr>
              in case tok of
                   None \<Rightarrow> (Inl (QueryError TOKEN_ERROR_MESSAGE), s')
                 | Some t \<Rightarrow> (Inr t, s'))))"

section \<open>Normalized outcomes (\<^verbatim>\<open>PlatformResponse\<close>)\<close>

text \<open>
  The checker classes, and the enumeration \<^verbatim>\<open>Platforms\<close>, whose only members are
  \<^verbatim>\<open>BOOKING = Booking\<close> and \<^verbatim>\<open>TRIVAGO = Trivago\<close>: the lookup
  \<^verbatim>\<open>Platforms(self.__class__)\<close> raises \<^verbatim>\<open>ValueError\<close> for every other class.
\<close>

datatype checker_class = Booking | Trivago | Other_checker string

datatype Platforms = BOOKING | TRIVAGO

fun Platforms_of :: "checker_class \<Rightarrow> error + Platforms" where
  "Platforms_of Booking = Inr BOOKING"
| "Platforms_of Trivago = Inr TRIVAGO"
| "Platforms_of (Other_checker n) = Inl (ValueError n)"

record 'd PlatformResponse =
  platform :: Platforms
  query :: string
  available :: bool
  valid :: bool
  success :: bool
  message :: string
  link :: "string option"
  data :: "'d option"

definition response_failure :: "checker_class \<Rightarrow> string \<Rightarrow> string \<Rightarrow> error + 'd PlatformResponse" where
  "response_failure cls q msg =
     (case Platforms_of cls of
        Inl e \<Rightarrow> Inl e
      | Inr p \<Rightarrow> Inr \<lparr>platform = p, query = q, available = False, valid = False,
                       success = False, message = msg, link = None, data = None\<rparr>)"

definition response_available :: "checker_class \<Rightarrow> string \<Rightarrow> string \<Rightarrow> error + 'd PlatformResponse" where
  "response_available cls q msg =
     (case Platforms_of cls of
        Inl e \<Rightarrow> Inl e
      | Inr p \<Rightarrow> Inr \<lparr>platform = p, query = q, available = True, valid = True,
                       success = True, message = msg, link = None, data = None\<rparr>)"

definition response_unavailable ::
  "checker_class \<Rightarrow> string \<Rightarrow> string \<Rightarrow> string option \<Rightarrow> 'd option \<Rightarrow> error + 'd PlatformResponse" where
  "response_unavailable cls q msg lnk dat =
     (case Platforms_of cls of
        Inl e \<Rightarrow> Inl e
      | Inr p \<Rightarrow> Inr \<lparr>platform = p, query = q, available = False, valid = True,
                       success = True, message = msg, link = lnk, data = dat\<rparr>)"

definition response_invalid :: "checker_class \<Rightarrow> string \<Rightarrow> string \<Rightarrow> error + 'd PlatformResponse" where
  "response_invalid cls q msg =
     (case Platforms_of cls of
        Inl e \<Rightarrow> Inl e
      | Inr p \<Rightarrow> Inr \<lparr>platform = p, query = q, available = False, valid = False,
                       success = True, message = msg, link = None, data = None\<rparr>)"

text \<open>The triple of flags of a response, and the invariant on it.\<close>

definition flags :: "'d PlatformResponse \<Rightarrow> bool \<times> bool \<times> bool" where
  "flags r = (available r, valid r, success r)"

definition flag_invariant :: "'d PlatformResponse \<Rightarrow> bool" where
  "flag_invariant r \<longleftrightarrow> (available r \<longrightarrow> valid r) \<and> (valid r \<longrightarrow> success r)"

text \<open>The four constructors, as one relation: \<open>produced cls r\<close> holds when some call of
  one of them on a checker of class \<open>cls\<close> returns \<open>r\<close>.\<close>

definition produced :: "checker_class \<Rightarrow> 'd PlatformResponse \<Rightarrow> bool" where
  "produced cls r \<longleftrightarrow>
     (\<exists>q msg. response_available cls q msg = Inr r)
   \<or> (\<exists>q msg lnk dat. response_unavailable cls q msg lnk dat = Inr r)
   \<or> (\<exists>q msg. response_invalid cls q msg = Inr r)
   \<or> (\<exists>q msg. response_failure cls q msg = Inr r)"

section \<open>The product crawler (\<^verbatim>\<open>BasePlatformCrawler\<close>)\<close>

record Product =
  product_id :: string
  product_name :: string
  product_url :: string

text \<open>
  The class constants that the request layer reads. A subclass may override them;
  \<open>default_config\<close> holds the values of \<^verbatim>\<open>BasePlatformCrawler\<close>. Delays are
  seconds; Python's floats are taken as reals.
\<close>

record config =
  MAX_RETRIES :: nat
  DELAY :: real
  USER_AGENT_ROTATION :: bool

definition default_config :: config where
  "default_config = \<lparr>MAX_RETRIES = 3, DELAY = 2, USER_AGENT_ROTATION = False\<rparr>"

text \<open>
  The instance state of a crawler: the fields \<^verbatim>\<open>__init__\<close> sets, the pagination
  cursor that \<^verbatim>\<open>VirgioCrawler.crawl\<close> stores in \<^verbatim>\<open>self.params\<close>, and the effects
  on the outside: the durations passed to \<^verbatim>\<open>sleep\<close>, the calls of
  \<^verbatim>\<open>update_user_agent\<close>, and the tables written by \<^verbatim>\<open>to_csv\<close>, each in order.
\<close>

record crawler =
  request_count :: nat
  DATAFRAME :: "Product list"
  data_saved :: bool
  cursor :: "string option"
  user_agent_updates :: nat
  slept :: "real list"
  csv_files :: "Product list list"

definition init_crawler :: crawler where
  "init_crawler = \<lparr>request_count = 0, DATAFRAME = [], data_saved = False, cursor = None,
                     user_agent_updates = 0, slept = [], csv_files = []\<rparr>"

definition sleep :: "real \<Rightarrow> crawler \<Rightarrow> crawler" where
  "sleep d s = s\<lparr>slept := slept s @ [d]\<rparr>"

definition update_user_agent :: "crawler \<Rightarrow> crawler" where
  "update_user_agent s = s\<lparr>user_agent_updates := Suc (user_agent_updates s)\<rparr>"

subsection \<open>The result accumulator (\<^verbatim>\<open>output_data\<close>)\<close>

text \<open>\<^verbatim>\<open>DataFrame.drop_duplicates\<close>: rows compared on all columns, the first of equal
  rows kept, the order kept.\<close>

fun drop_duplicates :: "'a list \<Rightarrow> 'a list" where
  "drop_duplicates [] = []"
| "drop_duplicates (x # xs) = x # drop_duplicates (filter (\<lambda>y. y \<noteq> x) xs)"

text \<open>\<^verbatim>\<open>to_csv\<close> is taken to succeed.\<close>

definition output_data :: "crawler \<Rightarrow> crawler" where
  "output_data s =
     (if DATAFRAME s = [] \<or> data_saved s then s
      else s\<lparr>DATAFRAME := drop_duplicates (DATAFRAME s),
              csv_files := csv_files s @ [drop_duplicates (DATAFRAME s)],
              data_saved := True\<rparr>)"

subsection \<open>Responses and \<^verbatim>\<open>get_json\<close>\<close>

text \<open>
  A response, as far as the engine reads it: the \<^verbatim>\<open>Content-Type\<close> header (\<open>None\<close>
  when the header is missing, where \<^verbatim>\<open>headers["Content-Type"]\<close> raises
  \<^verbatim>\<open>KeyError\<close>), and what \<^verbatim>\<open>.json()\<close> gives: the decoded body or the exception
  of the decoder.
\<close>

record 'j response =
  content_type :: "string option"
  json :: "error + 'j"

fun startswith :: "string \<Rightarrow> string \<Rightarrow> bool" where
  "startswith s [] = True"
| "startswith [] (p # ps) = False"
| "startswith (c # cs) (p # ps) = (c = p \<and> startswith cs ps)"

definition UNEXPECTED_CONTENT_TYPE_ERROR_MESSAGE :: "string \<Rightarrow> string" where
  "UNEXPECTED_CONTENT_TYPE_ERROR_MESSAGE ct = ''Unexpected content type '' @ ct @ ''..''"

definition get_json :: "'j response \<Rightarrow> error + 'j" where
  "get_json request =
     (case content_type request of
        None \<Rightarrow> Inl (KeyError ''Content-Type'')
      | Some ct \<Rightarrow>
          if \<not> startswith ct ''application/json''
          then Inl (QueryError (UNEXPECTED_CONTENT_TYPE_ERROR_MESSAGE ct))
          else json request)"

subsection \<open>The request layer (\<^verbatim>\<open>_request\<close>)\<close>

text \<open>
  The outside world of one crawler instance: what the \<open>n\<close>-th call of
  \<^verbatim>\<open>session.request\<close> does (counted from 0: it returns a response or raises), and
  what the \<open>n\<close>-th call of \<^verbatim>\<open>random.random()\<close> returns. \<^verbatim>\<open>_request\<close> makes one
  call of each per attempt, after adding one to \<^verbatim>\<open>request_count\<close>, so both are read at
  the value \<^verbatim>\<open>request_count\<close> had before the attempt.
\<close>

record 'j env =
  session_request :: "nat \<Rightarrow> error + 'j response"
  random :: "nat \<Rightarrow> real"

text \<open>The exceptions that the \<^verbatim>\<open>except\<close> clause of \<^verbatim>\<open>_request\<close> catches.\<close>

fun caught :: "error \<Rightarrow> bool" where
  "caught (RequestException m) = True"
| "caught (QueryError m) = True"
| "caught e = False"

text \<open>The decimal digits of a number, as an f-string prints it.\<close>

definition digit :: "nat \<Rightarrow> char" where
  "digit d = ''0123456789'' ! d"

fun str_nat :: "nat \<Rightarrow> string" where
  "str_nat n = (if n < 10 then [digit n] else str_nat (n div 10) @ [digit (n mod 10)])"

text \<open>
  The \<^verbatim>\<open>while\<close> loop of \<^verbatim>\<open>_request\<close>, from a value of \<^verbatim>\<open>retry_count\<close> on.
  \<open>check_error\<close> is the adapter's method: it returns a truth value or raises. The result
  is the response returned or the exception raised, and the state then.
\<close>

function request_loop ::
  "config \<Rightarrow> ('j response \<Rightarrow> error + bool) \<Rightarrow> 'j env \<Rightarrow> nat \<Rightarrow> crawler
     \<Rightarrow> (error + 'j response) \<times> crawler" where
  "request_loop cfg check_error env retry_count s =
     (if retry_count < MAX_RETRIES cfg then
        (let s1 = s\<lparr>request_count := request_count s + 1\<rparr>;
             jittered_delay = DELAY cfg * (1 / 2 + random env (request_count s))
         in case session_request env (request_count s) of
              Inl e \<Rightarrow>
                (if caught e then
                   (if retry_count + 1 = MAX_RETRIES cfg then (Inl e, s1)
                    else request_loop cfg check_error env (retry_count + 1)
                           (sleep (DELAY cfg * (real (retry_count + 1) + 1)) s1))
                 else (Inl e, s1))
            | Inr response \<Rightarrow>
                (case check_error response of
                   Inl e \<Rightarrow>
                     (if caught e then
                        (if retry_count + 1 = MAX_RETRIES cfg then (Inl e, s1)
                         else request_loop cfg check_error env (retry_count + 1)
                                (sleep (DELAY cfg * (real (retry_count + 1) + 1)) s1))
                      else (Inl e, s1))
                 | Inr True \<Rightarrow>
                     request_loop cfg check_error env (retry_count + 1)
                       (sleep (DELAY cfg * (real (retry_count + 1) + 1))
                          (if USER_AGENT_ROTATION cfg then update_user_agent s1 else s1))
                 | Inr False \<Rightarrow> (Inr response, sleep jittered_delay s1)))
      else (Inl (QueryError (''Failed after '' @ str_nat (MAX_RETRIES cfg) @ '' attempts'')), s))"
  by pat_completeness auto
termination
  by (relation "measure (\<lambda>(cfg, check_error, env, retry_count, s). MAX_RETRIES cfg - retry_count)") auto

definition request ::
  "config \<Rightarrow> ('j response \<Rightarrow> error + bool) \<Rightarrow> 'j env \<Rightarrow> crawler
     \<Rightarrow> (error + 'j response) \<times> crawler" where
  "request cfg check_error env s = request_loop cfg check_error env 0 s"

declare request_loop.simps [simp del]

declare str_nat.simps [simp del]

text \<open>
  An attempt that ends in the retry path: \<^verbatim>\<open>session.request\<close> raises an exception
  that \<^verbatim>\<open>_request\<close> catches (a transport fault), or \<^verbatim>\<open>check_error\<close> returns
  true or raises such an exception. \<open>n\<close> is the value of \<^verbatim>\<open>request_count\<close>
  before the attempt.
\<close>

definition attempt_fails :: "('j response \<Rightarrow> error + bool) \<Rightarrow> 'j env \<Rightarrow> nat \<Rightarrow> bool" where
  "attempt_fails check_error env n =
     (case session_request env n of
        Inl e \<Rightarrow> caught e
      | Inr response \<Rightarrow> (case check_error response of Inl e \<Rightarrow> caught e | Inr b \<Rightarrow> b))"

text \<open>
  What \<^verbatim>\<open>_request\<close> raises when the attempt at \<open>n\<close> is the last one the ceiling
  allows and it fails: the exception of that attempt, re-raised by the \<^verbatim>\<open>except\<close>
  clause, or, after a response that \<^verbatim>\<open>check_error\<close> classified, the
  \<^verbatim>\<open>QueryError\<close> after the loop.
\<close>

definition exhausted :: "config \<Rightarrow> ('j response \<Rightarrow> error + bool) \<Rightarrow> 'j env \<Rightarrow> nat \<Rightarrow> error" where
  "exhausted cfg check_error env n =
     (case session_request env n of
        Inl e \<Rightarrow> e
      | Inr response \<Rightarrow>
          (case check_error response of
             Inl e \<Rightarrow> e
           | Inr b \<Rightarrow> QueryError (''Failed after '' @ str_nat (MAX_RETRIES cfg) @ '' attempts'')))"


text \<open>
  A handler whose first two responses \<^verbatim>\<open>check_error\<close> classifies as errors and
  whose third it accepts; \<^verbatim>\<open>random.random()\<close> returns 0.25.
\<close>

definition flaky_env :: "bool env" where
  "flaky_env = \<lparr>session_request = \<lambda>n. Inr \<lparr>content_type = Some ''application/json'', json = Inr (n < 2)\<rparr>,
                 random = \<lambda>n. 1 / 4\<rparr>"

definition flaky_check_error :: "bool response \<Rightarrow> error + bool" where
  "flaky_check_error r = (case json r of Inl e \<Rightarrow> Inl e | Inr b \<Rightarrow> Inr b)"

subsection \<open>The Virgio adapter (\<^verbatim>\<open>VirgioCrawler\<close>)\<close>

text \<open>
  One node of the product list, as \<^verbatim>\<open>parse_data\<close> reads it with
  \<^verbatim>\<open>product.get(key, "")\<close>: a missing key is the empty string.
\<close>

record raw_product =
  rp_id :: string
  rp_handle :: string
  rp_title :: string

text \<open>
  The decoded body, as \<^verbatim>\<open>crawl\<close> reads it: the value of
  \<^verbatim>\<open>json_body["collection"]["products"]\<close> (\<open>None\<close> when one of the two keys is
  missing), in it the list under \<^verbatim>\<open>nodes\<close> and the object under
  \<^verbatim>\<open>pageInfo\<close>, each \<open>None\<close> when the key is missing.
\<close>

record page_info =
  hasNextPage :: "bool option"
  endCursor :: "string option"

record products_json =
  nodes :: "raw_product list option"
  pageInfo :: "page_info option"

type_synonym virgio_json = "products_json option"

definition base_url :: string where
  "base_url = ''https://www.virgio.com/''"

text \<open>\<^verbatim>\<open>s.split("/")[-1]\<close>: what follows the last slash.\<close>

definition last_segment :: "string \<Rightarrow> string" where
  "last_segment s = rev (takeWhile (\<lambda>c. c \<noteq> CHR ''/'') (rev s))"

definition parse_product :: "raw_product \<Rightarrow> Product" where
  "parse_product product =
     \<lparr>product_id = (if rp_id product \<noteq> [] then last_segment (rp_id product) else []),
      product_name = rp_title product,
      product_url = (if rp_handle product \<noteq> [] then base_url @ ''products/'' @ rp_handle product
                     else [])\<rparr>"

definition parse_data :: "raw_product list \<Rightarrow> crawler \<Rightarrow> crawler" where
  "parse_data products s = s\<lparr>DATAFRAME := DATAFRAME s @ map parse_product products\<rparr>"

text \<open>\<^verbatim>\<open>check_error\<close> of Virgio returns what the base method returns: false.\<close>

definition virgio_check_error :: "virgio_json response \<Rightarrow> error + bool" where
  "virgio_check_error response = Inr False"

text \<open>
  \<^verbatim>\<open>crawl\<close>: one page. \<^verbatim>\<open>get_json\<close> is called here, on the response that
  \<^verbatim>\<open>_request\<close> has returned.
\<close>

definition crawl :: "config \<Rightarrow> virgio_json env \<Rightarrow> crawler \<Rightarrow> (error + bool) \<times> crawler" where
  "crawl cfg env s =
     (case request cfg virgio_check_error env s of
        (Inl e, s1) \<Rightarrow> (Inl e, s1)
      | (Inr r, s1) \<Rightarrow>
          (case get_json r of
             Inl e \<Rightarrow> (Inl e, s1)
           | Inr None \<Rightarrow> (Inl (KeyError ''collection''), s1)
           | Inr (Some product_data) \<Rightarrow>
               (case nodes product_data of
                  Some (n # ns) \<Rightarrow>
                    (let s2 = parse_data (n # ns) s1
                     in case pageInfo product_data of
                          None \<Rightarrow> (Inl (KeyError ''pageInfo''), s2)
                        | Some page_info \<Rightarrow>
                            (case hasNextPage page_info of
                               None \<Rightarrow> (Inl (KeyError ''hasNextPage''), s2)
                             | Some False \<Rightarrow> (Inr False, s2)
                             | Some True \<Rightarrow>
                                 (case endCursor page_info of
                                    None \<Rightarrow> (Inl (KeyError ''endCursor''), s2)
                                  | Some c \<Rightarrow> (Inr True, s2\<lparr>cursor := Some c\<rparr>))))
                | _ \<Rightarrow> (Inr False, s1))))"

text \<open>
  The \<^verbatim>\<open>while True\<close> loop of \<^verbatim>\<open>run\<close>. It ends when \<^verbatim>\<open>crawl\<close> returns false
  or raises; against a site that always has a next page it does not end, so the loop
  takes fuel, one unit per page, and \<open>None\<close> is "no result within the fuel". The page
  number is only logged.
\<close>

fun run_loop ::
  "nat \<Rightarrow> config \<Rightarrow> virgio_json env \<Rightarrow> crawler \<Rightarrow> ((error + unit) \<times> crawler) option" where
  "run_loop 0 cfg env s = None"
| "run_loop (Suc fuel) cfg env s =
     (case crawl cfg env s of
        (Inl e, s1) \<Rightarrow> Some (Inl e, s1)
      | (Inr False, s1) \<Rightarrow> Some (Inr (), s1)
      | (Inr True, s1) \<Rightarrow> run_loop fuel cfg env (sleep (DELAY cfg) s1))"

definition run ::
  "nat \<Rightarrow> config \<Rightarrow> virgio_json env \<Rightarrow> crawler \<Rightarrow> ((error + unit) \<times> crawler) option" where
  "run fuel cfg env s =
     (case run_loop fuel cfg env s of
        None \<Rightarrow> None
      | Some (Inl e, s1) \<Rightarrow> Some (Inl e, s1)
      | Some (Inr u, s1) \<Rightarrow> Some (Inr (), output_data s1))"

text \<open>
  \<^verbatim>\<open>safe_run\<close> of the base class, over the \<^verbatim>\<open>run\<close> method of the subclass: the
  \<^verbatim>\<open>except\<close> clause logs and re-raises, the \<^verbatim>\<open>finally\<close> clause calls
  \<^verbatim>\<open>output_data\<close> on both ways out.
\<close>

definition safe_run ::
  "(crawler \<Rightarrow> ((error + unit) \<times> crawler) option) \<Rightarrow> crawler \<Rightarrow> ((error + unit) \<times> crawler) option" where
  "safe_run run_method s =
     (case run_method s of
        None \<Rightarrow> None
      | Some (r, s1) \<Rightarrow> Some (r, output_data s1))"

subsection \<open>An adapter that validates in \<^verbatim>\<open>check_error\<close>\<close>

text \<open>
  \<^verbatim>\<open>check_error\<close> of \<^verbatim>\<open>TataCliqCrawler\<close> starts with
  \<^verbatim>\<open>json_body = self.get_json(response)\<close> and then reads the body; \<open>has_error\<close> is
  that reading (for TataCliq: a true value under the key \<^verbatim>\<open>error\<close>). Here
  \<^verbatim>\<open>get_json\<close> runs inside the \<^verbatim>\<open>try\<close> block of \<^verbatim>\<open>_request\<close>.
\<close>

definition tatacliq_check_error :: "('j \<Rightarrow> bool) \<Rightarrow> 'j response \<Rightarrow> error + bool" where
  "tatacliq_check_error has_error response =
     (case get_json response of
        Inl e \<Rightarrow> Inl e
      | Inr json_body \<Rightarrow> Inr (has_error json_body))"

subsection \<open>Worlds for the scenarios\<close>

text \<open>A site that answers the \<open>n\<close>-th request with the \<open>n\<close>-th response of a list, and
  resets the connection after the last.\<close>

definition serve :: "'j response list \<Rightarrow> nat \<Rightarrow> error + 'j response" where
  "serve rs n = (if n < length rs then Inr (rs ! n) else Inl (RequestException ''connection reset''))"

definition page :: "raw_product list \<Rightarrow> bool \<Rightarrow> string \<Rightarrow> virgio_json response" where
  "page ns has_next c =
     \<lparr>content_type = Some ''application/json; charset=utf-8'',
      json = Inr (Some \<lparr>nodes = Some ns,
                        pageInfo = Some \<lparr>hasNextPage = Some has_next, endCursor = Some c\<rparr>\<rparr>)\<rparr>"

definition html_page :: "virgio_json response" where
  "html_page = \<lparr>content_type = Some ''text/html'', json = Inl (ValueError ''Expecting value'')\<rparr>"

definition three_pages ::
  "raw_product \<Rightarrow> raw_product \<Rightarrow> raw_product \<Rightarrow> (nat \<Rightarrow> real) \<Rightarrow> virgio_json env" where
  "three_pages a b c rnd =
     \<lparr>session_request = serve [page [a, b] True ''c1'', page [b, c] True ''c2'', page [] False []],
      random = rnd\<rparr>"

definition item :: "string \<Rightarrow> raw_product" where
  "item i = \<lparr>rp_id = ''gid://shopify/Product/'' @ i, rp_handle = ''item-'' @ i,
             rp_title = ''Item '' @ i\<rparr>"


definition html_site :: "virgio_json env" where
  "html_site = \<lparr>session_request = \<lambda>n. Inr html_page, random = \<lambda>n. 0\<rparr>"



section \<open>The registry and the orchestrator (\<^verbatim>\<open>CrawlerRegistry\<close>, \<^verbatim>\<open>main.py\<close>)\<close>

text \<open>\<^verbatim>\<open>str.upper\<close> on ASCII names: the letters a to z are mapped, every other
  character is kept.\<close>

definition ascii_lowercase :: string where
  "ascii_lowercase = ''abcdefghijklmnopqrstuvwxyz''"

definition ascii_uppercase :: string where
  "ascii_uppercase = ''ABCDEFGHIJKLMNOPQRSTUVWXYZ''"

definition upper_char :: "char \<Rightarrow> char" where
  "upper_char c =
     (case map_of (zip ascii_lowercase ascii_uppercase) c of
        None \<Rightarrow> c
      | Some u \<Rightarrow> u)"

definition upper :: "string \<Rightarrow> string" where
  "upper s = map upper_char s"

text \<open>
  A crawler class: the two required class attributes (\<open>None\<close> as in the base class) and
  its \<^verbatim>\<open>run\<close> method, which returns, raises, or does not come back (\<open>None\<close>).
\<close>

record crawler_class =
  domain :: "string option"
  platform_name :: "string option"
  run_method :: "crawler \<Rightarrow> ((error + unit) \<times> crawler) option"

text \<open>\<^verbatim>\<open>_crawlers\<close>: a dictionary, in insertion order.\<close>

type_synonym registry = "(string \<times> crawler_class) list"

definition register :: "string \<Rightarrow> crawler_class \<Rightarrow> registry \<Rightarrow> registry" where
  "register name crawler_class reg = AList.update (upper name) crawler_class reg"

definition get_crawler :: "registry \<Rightarrow> string \<Rightarrow> crawler_class option" where
  "get_crawler reg name = map_of reg (upper name)"

definition available_crawlers :: "registry \<Rightarrow> string list" where
  "available_crawlers reg = map fst reg"

text \<open>The registry after the \<^verbatim>\<open>@CrawlerRegistry.register(name)\<close> decorators of the
  imported modules have run, in order.\<close>

definition registered :: "(string \<times> crawler_class) list \<Rightarrow> registry" where
  "registered decls = foldl (\<lambda>reg (name, crawler_class). register name crawler_class reg) [] decls"

text \<open>\<^verbatim>\<open>BasePlatformCrawler.__init__\<close>.\<close>

definition init :: "crawler_class \<Rightarrow> error + crawler" where
  "init cls =
     (if domain cls = None \<or> domain cls = Some [] then Inl (ValueError ''Domain must be provided.'')
      else if platform_name cls = None \<or> platform_name cls = Some []
      then Inl (ValueError ''Platform name must be provided.'')
      else Inr init_crawler)"

text \<open>The two statements \<^verbatim>\<open>crawler = crawler_class()\<close> and
  \<^verbatim>\<open>crawler.safe_run()\<close> of \<^verbatim>\<open>run_crawler\<close>: what one adapter does.\<close>

definition worker :: "crawler_class \<Rightarrow> (error + unit) option" where
  "worker cls =
     (case init cls of
        Inl e \<Rightarrow> Some (Inl e)
      | Inr crawler \<Rightarrow>
          (case safe_run (run_method cls) crawler of
             None \<Rightarrow> None
           | Some (r, s) \<Rightarrow> Some r))"

text \<open>The \<^verbatim>\<open>try\<close> block of \<^verbatim>\<open>run_crawler\<close>.\<close>

definition run_crawler_try :: "registry \<Rightarrow> string \<Rightarrow> (error + string \<times> bool) option" where
  "run_crawler_try reg crawler_name =
     (case get_crawler reg crawler_name of
        None \<Rightarrow> Some (Inl (KeyError crawler_name))
      | Some cls \<Rightarrow>
          (case worker cls of
             None \<Rightarrow> None
           | Some (Inl e) \<Rightarrow> Some (Inl e)
           | Some (Inr u) \<Rightarrow> Some (Inr (crawler_name, True))))"

text \<open>\<^verbatim>\<open>run_crawler\<close>: \<^verbatim>\<open>except Exception\<close> turns every exception of the block
  into the result \<^verbatim>\<open>(crawler_name, False)\<close>. The result type keeps a place for an
  exception that would leave \<^verbatim>\<open>run_crawler\<close>, as the caller has a handler for one.\<close>

definition run_crawler :: "registry \<Rightarrow> string \<Rightarrow> (error + string \<times> bool) option" where
  "run_crawler reg crawler_name =
     (case run_crawler_try reg crawler_name of
        None \<Rightarrow> None
      | Some (Inl e) \<Rightarrow> Some (Inr (crawler_name, False))
      | Some (Inr res) \<Rightarrow> Some (Inr res))"

text \<open>What \<^verbatim>\<open>main\<close> itself writes to the log.\<close>

datatype log =
    Running_all "string list"
  | Successfully_completed string
  | Failed_to_complete string
  | Generated_an_exception string error
  | Invalid_crawler_name string
  | Available_crawlers "string list"

text \<open>\<^verbatim>\<open>main\<close> with \<^verbatim>\<open>--crawler name\<close>: the lines it logs, or the exception that
  leaves it.\<close>

definition main_single :: "registry \<Rightarrow> string \<Rightarrow> (error + log list) option" where
  "main_single reg name =
     (case run_crawler reg name of
        None \<Rightarrow> None
      | Some (Inr (crawler_name, ok)) \<Rightarrow> Some (Inr [])
      | Some (Inl (KeyError k)) \<Rightarrow>
          Some (Inr [Invalid_crawler_name name, Available_crawlers (available_crawlers reg)])
      | Some (Inl e) \<Rightarrow> Some (Inl e))"

text \<open>
  \<^verbatim>\<open>main\<close> with \<^verbatim>\<open>--all\<close>. One future is submitted for each registered name; the
  loop over \<^verbatim>\<open>as_completed\<close> meets them in the order they complete, \<open>completed\<close>, a
  permutation of the names, and logs one line for each. The \<^verbatim>\<open>with\<close> block ends when
  all workers have ended, so there is no result while one of them runs on.
\<close>

fun report :: "string \<Rightarrow> error + string \<times> bool \<Rightarrow> log" where
  "report crawler (Inr (name, ok)) =
     (if ok then Successfully_completed name else Failed_to_complete name)"
| "report crawler (Inl e) = Generated_an_exception crawler e"

fun reports :: "registry \<Rightarrow> string list \<Rightarrow> log list option" where
  "reports reg [] = Some []"
| "reports reg (crawler # cs) =
     (case run_crawler reg crawler of
        None \<Rightarrow> None
      | Some res \<Rightarrow>
          (case reports reg cs of
             None \<Rightarrow> None
           | Some ls \<Rightarrow> Some (report crawler res # ls)))"

definition main_all :: "registry \<Rightarrow> string list \<Rightarrow> log list option" where
  "main_all reg completed =
     (case reports reg completed of
        None \<Rightarrow> None
      | Some ls \<Rightarrow> Some (Running_all (available_crawlers reg) # ls))"

fun is_failure :: "log \<Rightarrow> bool" where
  "is_failure (Failed_to_complete name) = True"
| "is_failure (Generated_an_exception crawler e) = True"
| "is_failure l = False"

text \<open>The Virgio class, over a world; and three registrations of it, each against a site
  of its own, the second of which answers with HTML pages.\<close>

definition VirgioCrawler :: "nat \<Rightarrow> config \<Rightarrow> virgio_json env \<Rightarrow> crawler_class" where
  "VirgioCrawler fuel cfg env =
     \<lparr>domain = Some ''westside.com'', platform_name = Some ''Virgio'', run_method = run fuel cfg env\<rparr>"

definition three_crawlers :: "(string \<times> crawler_class) list" where
  "three_crawlers =
     [(''shop_a'', VirgioCrawler 3 default_config (three_pages (item ''4'') (item ''5'') (item ''6'') (\<lambda>n. 0))),
      (''virgio'', VirgioCrawler 3 default_config html_site),
      (''shop_b'', VirgioCrawler 3 default_config (three_pages (item ''1'') (item ''2'') (item ''3'') (\<lambda>n. 0)))]"

text \<open>A registry as the decorators leave it: no key twice, every key in upper case.\<close>

definition well_keyed :: "registry \<Rightarrow> bool" where
  "well_keyed reg \<longleftrightarrow> distinct (map fst reg) \<and> (\<forall>k \<in> set (map fst reg). upper k = k)"

section \<open>Properties of the token cache\<close>

lemma get_token_sent:
  "prerequest_sent s \<Longrightarrow>
   get_token p s = ((case token s of None \<Rightarrow> Inl (QueryError TOKEN_ERROR_MESSAGE) | Some t \<Rightarrow> Inr t), s)"
  by (simp add: get_token_def split: option.splits)

lemma get_token_returns:
  assumes "\<not> prerequest_sent s" and "p (prerequest_calls s) = Inr tok"
  shows "get_token p s =
           ((case tok of None \<Rightarrow> Inl (QueryError TOKEN_ERROR_MESSAGE) | Some t \<Rightarrow> Inr t),
            s\<lparr>token := tok, prerequest_sent := True, prerequest_calls := Suc (prerequest_calls s)\<rparr>)"
  using assms by (simp add: get_token_def Let_def split: option.splits)

lemma get_token_raises:
  assumes "\<not> prerequest_sent s" and "p (prerequest_calls s) = Inl e"
  shows "get_token p s = (Inl e, s\<lparr>prerequest_calls := Suc (prerequest_calls s)\<rparr>)"
  using assms by (simp add: get_token_def)

text \<open>
  C2, as the code has it. When the acquisition of the first \<^verbatim>\<open>get_token()\<close> call
  returns (a token or \<^verbatim>\<open>None\<close>), or the instance had already acquired, a second call
  makes no further \<^verbatim>\<open>prerequest\<close> call and ends as the first did: with the identical
  token, or with the same \<^verbatim>\<open>QueryError\<close> when there is none. In all, at most one
  acquisition call is made.
\<close>

theorem get_token_twice_cached:
  assumes "prerequest_sent s \<or> (\<exists>tok. p (prerequest_calls s) = Inr tok)"
  shows "fst (get_token p (snd (get_token p s))) = fst (get_token p s)
       \<and> prerequest_calls (snd (get_token p (snd (get_token p s))))
           = prerequest_calls (snd (get_token p s))
       \<and> prerequest_calls (snd (get_token p (snd (get_token p s)))) \<le> Suc (prerequest_calls s)"
proof (cases "prerequest_sent s")
  case True
  then show ?thesis by (simp add: get_token_sent)
next
  case False
  with assms obtain tok where tok: "p (prerequest_calls s) = Inr tok" by blast
  show ?thesis
    using get_token_returns [of s p tok] False tok by (simp add: get_token_sent)
qed

theorem get_token_twice_cached_witness:
  "fst (get_token (\<lambda>n. Inr (Some ''csrf'')) (snd (get_token (\<lambda>n. Inr (Some ''csrf'')) init_checker)))
     = Inr ''csrf''
   \<and> prerequest_calls
       (snd (get_token (\<lambda>n. Inr (Some ''csrf'')) (snd (get_token (\<lambda>n. Inr (Some ''csrf'')) init_checker))))
     = 1"
  using get_token_twice_cached [of "init_checker :: string checker" "\<lambda>n. Inr (Some ''csrf'')"]
  by (simp add: get_token_def init_checker_def)

text \<open>
  C2, as stated, fails when \<^verbatim>\<open>prerequest\<close> raises: the flag is not set, and the second
  \<^verbatim>\<open>get_token()\<close> call on the same instance calls \<^verbatim>\<open>prerequest\<close> again.
\<close>

theorem get_token_twice_counterexample:
  "prerequest_calls
     (snd (get_token (\<lambda>n. Inl (RequestException ''timeout''))
        (snd (get_token (\<lambda>n. Inl (RequestException ''timeout'')) (init_checker :: string checker)))))
   = 2"
  by (simp add: get_token_def init_checker_def)

text \<open>
  C6, as the code has it. When the acquisition of the first \<^verbatim>\<open>get_token()\<close> call
  returns \<^verbatim>\<open>None\<close>: the flag is set and \<^verbatim>\<open>None\<close> is cached, the first call
  itself raises \<^verbatim>\<open>QueryError\<close> with the token message, and so does every later call,
  none of which changes the instance or calls \<^verbatim>\<open>prerequest\<close> again.
\<close>

theorem get_token_none_terminal:
  assumes "\<not> prerequest_sent s" and "p (prerequest_calls s) = Inr None"
  shows "prerequest_sent (snd (get_token p s))
       \<and> token (snd (get_token p s)) = None
       \<and> prerequest_calls (snd (get_token p s)) = Suc (prerequest_calls s)
       \<and> fst (get_token p s) = Inl (QueryError TOKEN_ERROR_MESSAGE)
       \<and> ((\<lambda>c. snd (get_token p c)) ^^ k) (snd (get_token p s)) = snd (get_token p s)
       \<and> get_token p (((\<lambda>c. snd (get_token p c)) ^^ k) (snd (get_token p s)))
           = (Inl (QueryError TOKEN_ERROR_MESSAGE), snd (get_token p s))"
proof -
  let ?s1 = "snd (get_token p s)"
  have first: "get_token p s =
      (Inl (QueryError TOKEN_ERROR_MESSAGE),
       s\<lparr>token := None, prerequest_sent := True, prerequest_calls := Suc (prerequest_calls s)\<rparr>)"
    using get_token_returns [of s p None] assms by simp
  have sent: "prerequest_sent ?s1" and none: "token ?s1 = None"
    by (simp_all add: first)
  have again: "get_token p ?s1 = (Inl (QueryError TOKEN_ERROR_MESSAGE), ?s1)"
    using get_token_sent [OF sent, of p] none by simp
  have stay: "((\<lambda>c. snd (get_token p c)) ^^ k) ?s1 = ?s1"
    by (induction k) (simp_all add: again)
  show ?thesis
    using sent none again stay by (simp add: first)
qed

theorem get_token_none_terminal_witness:
  "fst (get_token (\<lambda>n. Inr None) (init_checker :: string checker)) = Inl (QueryError TOKEN_ERROR_MESSAGE)
   \<and> prerequest_calls
       (((\<lambda>c. snd (get_token (\<lambda>n. Inr None) c)) ^^ 5)
          (snd (get_token (\<lambda>n. Inr None) (init_checker :: string checker)))) = 1"
  using get_token_none_terminal [of "init_checker :: string checker" "\<lambda>n. Inr None" 5]
  by (simp add: init_checker_def)

text \<open>
  C6, as stated, fails: the first call does not complete. On a fresh instance whose
  \<^verbatim>\<open>prerequest\<close> returns \<^verbatim>\<open>None\<close>, the first \<^verbatim>\<open>get_token()\<close> call already raises.
\<close>

theorem get_token_none_first_call_counterexample:
  "fst (get_token (\<lambda>n. Inr None) (init_checker :: string checker))
     = Inl (QueryError TOKEN_ERROR_MESSAGE)"
  by (simp add: get_token_def init_checker_def)

section \<open>Properties of the normalized outcomes\<close>

lemma flags_available:
  "response_available cls q msg = Inr r \<Longrightarrow> flags r = (True, True, True)"
  by (auto simp: response_available_def flags_def split: sum.splits)

lemma flags_unavailable:
  "response_unavailable cls q msg lnk dat = Inr r \<Longrightarrow> flags r = (False, True, True)"
  by (auto simp: response_unavailable_def flags_def split: sum.splits)

lemma flags_invalid:
  "response_invalid cls q msg = Inr r \<Longrightarrow> flags r = (False, False, True)"
  by (auto simp: response_invalid_def flags_def split: sum.splits)

lemma flags_failure:
  "response_failure cls q msg = Inr r \<Longrightarrow> flags r = (False, False, False)"
  by (auto simp: response_failure_def flags_def split: sum.splits)

text \<open>
  C10. Every response that one of \<^verbatim>\<open>response_available\<close>,
  \<^verbatim>\<open>response_unavailable\<close>, \<^verbatim>\<open>response_invalid\<close> and \<^verbatim>\<open>response_failure\<close>
  returns keeps the invariant (available implies valid, valid implies success), and its
  triple (available, valid, success) is one of (true, true, true), (false, true, true),
  (false, false, true), (false, false, false).
\<close>

theorem response_flag_invariant:
  assumes "produced cls r"
  shows "flag_invariant r
       \<and> flags r \<in> {(True, True, True), (False, True, True), (False, False, True), (False, False, False)}"
proof -
  from assms consider
      (av) q msg where "response_available cls q msg = Inr r"
    | (un) q msg lnk dat where "response_unavailable cls q msg lnk dat = Inr r"
    | (inv) q msg where "response_invalid cls q msg = Inr r"
    | (fl) q msg where "response_failure cls q msg = Inr r"
    unfolding produced_def by blast
  then have "flags r \<in> {(True, True, True), (False, True, True), (False, False, True), (False, False, False)}"
  proof cases
    case av
    then show ?thesis by (simp add: flags_available)
  next
    case un
    then show ?thesis by (simp add: flags_unavailable)
  next
    case inv
    then show ?thesis by (simp add: flags_invalid)
  next
    case fl
    then show ?thesis by (simp add: flags_failure)
  qed
  then show ?thesis
    by (auto simp: flags_def flag_invariant_def)
qed

theorem response_flag_invariant_witness:
  "produced Booking
     (\<lparr>platform = BOOKING, query = ''a@b.c'', available = False, valid = True, success = True,
       message = ''Unavailable'', link = None, data = None\<rparr> :: unit PlatformResponse)
   \<and> flag_invariant
     (\<lparr>platform = BOOKING, query = ''a@b.c'', available = False, valid = True, success = True,
       message = ''Unavailable'', link = None, data = None\<rparr> :: unit PlatformResponse)"
proof -
  have p: "produced Booking
     (\<lparr>platform = BOOKING, query = ''a@b.c'', available = False, valid = True, success = True,
       message = ''Unavailable'', link = None, data = None\<rparr> :: unit PlatformResponse)"
    unfolding produced_def response_unavailable_def by simp
  from response_flag_invariant [OF p] p show ?thesis by simp
qed

section \<open>Properties of the request layer\<close>

lemma request_loop_done:
  "\<not> k < MAX_RETRIES cfg \<Longrightarrow>
   request_loop cfg ce env k s =
     (Inl (QueryError (''Failed after '' @ str_nat (MAX_RETRIES cfg) @ '' attempts'')), s)"
  by (simp add: request_loop.simps [of cfg ce env k s])

lemma request_loop_fail_step:
  assumes "k + 1 < MAX_RETRIES cfg" and "attempt_fails ce env (request_count s)"
  shows "\<exists>s'. request_loop cfg ce env k s = request_loop cfg ce env (k + 1) s'
            \<and> request_count s' = request_count s + 1
            \<and> slept s' = slept s @ [DELAY cfg * (real k + 2)]
            \<and> DATAFRAME s' = DATAFRAME s \<and> data_saved s' = data_saved s
            \<and> cursor s' = cursor s \<and> csv_files s' = csv_files s"
proof -
  have lt: "k < MAX_RETRIES cfg" and ne: "Suc k \<noteq> MAX_RETRIES cfg" using assms(1) by simp_all
  show ?thesis
  proof (cases "session_request env (request_count s)")
    case (Inl e)
    with assms(2) have c: "caught e" by (simp add: attempt_fails_def)
    have "request_loop cfg ce env k s = request_loop cfg ce env (k + 1)
            (sleep (DELAY cfg * (real (k + 1) + 1)) (s\<lparr>request_count := request_count s + 1\<rparr>))"
      using lt ne c Inl by (simp add: request_loop.simps [of cfg ce env k s] Let_def)
    then show ?thesis
      by (intro exI [of _ "sleep (DELAY cfg * (real (k + 1) + 1)) (s\<lparr>request_count := request_count s + 1\<rparr>)"])
         (simp add: sleep_def algebra_simps)
  next
    case (Inr r)
    show ?thesis
    proof (cases "ce r")
      case (Inl e)
      with assms(2) Inr have c: "caught e" by (simp add: attempt_fails_def)
      have "request_loop cfg ce env k s = request_loop cfg ce env (k + 1)
              (sleep (DELAY cfg * (real (k + 1) + 1)) (s\<lparr>request_count := request_count s + 1\<rparr>))"
        using lt ne c Inl Inr by (simp add: request_loop.simps [of cfg ce env k s] Let_def)
      then show ?thesis
        by (intro exI [of _ "sleep (DELAY cfg * (real (k + 1) + 1)) (s\<lparr>request_count := request_count s + 1\<rparr>)"])
           (simp add: sleep_def algebra_simps)
    next
      case ceb: (Inr b)
      with assms(2) Inr have b: "b" by (simp add: attempt_fails_def)
      let ?s1 = "s\<lparr>request_count := request_count s + 1\<rparr>"
      let ?s' = "sleep (DELAY cfg * (real (k + 1) + 1))
                   (if USER_AGENT_ROTATION cfg then update_user_agent ?s1 else ?s1)"
      have "request_loop cfg ce env k s = request_loop cfg ce env (k + 1) ?s'"
        using lt b ceb Inr by (simp add: request_loop.simps [of cfg ce env k s] Let_def)
      then show ?thesis
        by (intro exI [of _ ?s']) (simp add: sleep_def update_user_agent_def algebra_simps)
    qed
  qed
qed

lemma request_loop_fail_last:
  assumes "k + 1 = MAX_RETRIES cfg" and "attempt_fails ce env (request_count s)"
  shows "\<exists>s'. request_loop cfg ce env k s = (Inl (exhausted cfg ce env (request_count s)), s')
            \<and> request_count s' = request_count s + 1
            \<and> DATAFRAME s' = DATAFRAME s \<and> data_saved s' = data_saved s
            \<and> cursor s' = cursor s \<and> csv_files s' = csv_files s"
proof -
  have lt: "k < MAX_RETRIES cfg" and eq: "Suc k = MAX_RETRIES cfg" using assms(1) by simp_all
  have d: "\<not> k + 1 < MAX_RETRIES cfg" using assms(1) by simp
  let ?s1 = "s\<lparr>request_count := request_count s + 1\<rparr>"
  show ?thesis
  proof (cases "session_request env (request_count s)")
    case (Inl e)
    with assms(2) have c: "caught e" by (simp add: attempt_fails_def)
    have "request_loop cfg ce env k s = (Inl e, ?s1)"
      using lt eq c Inl by (simp add: request_loop.simps [of cfg ce env k s] Let_def)
    then show ?thesis using Inl by (simp add: exhausted_def)
  next
    case (Inr r)
    show ?thesis
    proof (cases "ce r")
      case (Inl e)
      with assms(2) Inr have c: "caught e" by (simp add: attempt_fails_def)
      have "request_loop cfg ce env k s = (Inl e, ?s1)"
        using lt eq c Inl Inr by (simp add: request_loop.simps [of cfg ce env k s] Let_def)
      then show ?thesis using Inl Inr by (simp add: exhausted_def)
    next
      case ceb: (Inr b)
      with assms(2) Inr have b: "b" by (simp add: attempt_fails_def)
      let ?s' = "sleep (DELAY cfg * (real (k + 1) + 1))
                   (if USER_AGENT_ROTATION cfg then update_user_agent ?s1 else ?s1)"
      have "request_loop cfg ce env k s = request_loop cfg ce env (k + 1) ?s'"
        using lt b ceb Inr by (simp add: request_loop.simps [of cfg ce env k s] Let_def)
      then show ?thesis using ceb Inr d
        by (simp add: request_loop_done exhausted_def sleep_def update_user_agent_def)
    qed
  qed
qed

lemma request_loop_ok:
  assumes "k < MAX_RETRIES cfg" and "session_request env (request_count s) = Inr r" and "ce r = Inr False"
  shows "request_loop cfg ce env k s =
           (Inr r, sleep (DELAY cfg * (1 / 2 + random env (request_count s)))
                     (s\<lparr>request_count := request_count s + 1\<rparr>))"
  using assms by (simp add: request_loop.simps [of cfg ce env k s] Let_def)


lemma request_loop_all_fail:
  assumes "\<forall>n < MAX_RETRIES cfg - k. attempt_fails ce env (request_count s + n)"
      and "k < MAX_RETRIES cfg"
  shows "\<exists>s'. request_loop cfg ce env k s
                = (Inl (exhausted cfg ce env (request_count s + (MAX_RETRIES cfg - k) - 1)), s')
            \<and> request_count s' = request_count s + (MAX_RETRIES cfg - k)
            \<and> DATAFRAME s' = DATAFRAME s \<and> data_saved s' = data_saved s
            \<and> cursor s' = cursor s \<and> csv_files s' = csv_files s"
  using assms
proof (induction "MAX_RETRIES cfg - k" arbitrary: k s)
  case 0
  then show ?case by simp
next
  case (Suc d)
  from Suc.prems(1) Suc.hyps(2) have here: "attempt_fails ce env (request_count s)"
    by (metis add.right_neutral zero_less_Suc)
  show ?case
  proof (cases "k + 1 = MAX_RETRIES cfg")
    case True
    then have "MAX_RETRIES cfg - k = 1" by simp
    with request_loop_fail_last [OF True here, of ] show ?thesis by simp
  next
    case False
    with Suc.prems(2) have lt: "k + 1 < MAX_RETRIES cfg" by simp
    from request_loop_fail_step [OF lt here] obtain s1 where
      s1: "request_loop cfg ce env k s = request_loop cfg ce env (k + 1) s1"
          "request_count s1 = request_count s + 1"
          "DATAFRAME s1 = DATAFRAME s" "data_saved s1 = data_saved s"
          "cursor s1 = cursor s" "csv_files s1 = csv_files s"
      by blast
    have d: "d = MAX_RETRIES cfg - (k + 1)" using Suc.hyps(2) by simp
    have rest: "\<forall>n < MAX_RETRIES cfg - (k + 1). attempt_fails ce env (request_count s1 + n)"
    proof (intro allI impI)
      fix n assume "n < MAX_RETRIES cfg - (k + 1)"
      then have "Suc n < MAX_RETRIES cfg - k" by simp
      with Suc.prems(1) have "attempt_fails ce env (request_count s + Suc n)" by blast
      then show "attempt_fails ce env (request_count s1 + n)" by (simp add: s1(2))
    qed
    from Suc.hyps(1) [OF d rest lt] obtain s' where
      s': "request_loop cfg ce env (k + 1) s1
             = (Inl (exhausted cfg ce env (request_count s1 + (MAX_RETRIES cfg - (k + 1)) - 1)), s')"
          "request_count s' = request_count s1 + (MAX_RETRIES cfg - (k + 1))"
          "DATAFRAME s' = DATAFRAME s1" "data_saved s' = data_saved s1"
          "cursor s' = cursor s1" "csv_files s' = csv_files s1"
      by blast
    have idx: "request_count s1 + (MAX_RETRIES cfg - (k + 1)) - 1
                 = request_count s + (MAX_RETRIES cfg - k) - 1"
      using lt by (simp add: s1(2))
    have cnt: "request_count s1 + (MAX_RETRIES cfg - (k + 1)) = request_count s + (MAX_RETRIES cfg - k)"
      using lt by (simp add: s1(2))
    show ?thesis
      using s1 s' idx cnt by simp
  qed
qed



text \<open>
  C8, as the code has it. With a ceiling of 3, when the first two attempts fail and
  \<^verbatim>\<open>check_error\<close> accepts the third response, \<^verbatim>\<open>_request\<close> returns that third
  response after three sleeps: \<^verbatim>\<open>DELAY\<close> times 2 after the first failed attempt
  (\<^verbatim>\<open>retry_count\<close> 0 before it), \<^verbatim>\<open>DELAY\<close> times 3 after the second
  (\<^verbatim>\<open>retry_count\<close> 1 before it), and the jittered delay
  \<^verbatim>\<open>DELAY * (0.5 + random.random())\<close> before the return. \<^verbatim>\<open>retry_count\<close> is
  incremented before the sleep is computed as \<^verbatim>\<open>DELAY * (retry_count + 1)\<close>, so the
  sleep after the failed attempt numbered \<open>a\<close> from 0 is \<^verbatim>\<open>DELAY\<close> times \<open>a + 2\<close>;
  the backoff is linear and, for a positive \<^verbatim>\<open>DELAY\<close>, increasing.
\<close>

theorem request_third_attempt:
  assumes "MAX_RETRIES cfg = 3"
      and "attempt_fails check_error env (request_count s)"
      and "attempt_fails check_error env (request_count s + 1)"
      and "session_request env (request_count s + 2) = Inr r"
      and "check_error r = Inr False"
  shows "fst (request cfg check_error env s) = Inr r
       \<and> request_count (snd (request cfg check_error env s)) = request_count s + 3
       \<and> slept (snd (request cfg check_error env s))
           = slept s @ [DELAY cfg * (0 + 2), DELAY cfg * (1 + 2),
                        DELAY cfg * (1 / 2 + random env (request_count s + 2))]
       \<and> (0 < DELAY cfg \<longrightarrow> DELAY cfg * (0 + 2) < DELAY cfg * (1 + 2))"
proof -
  have l0: "0 + 1 < MAX_RETRIES cfg" and l1: "Suc 0 + 1 < MAX_RETRIES cfg"
    and l2: "Suc (Suc 0) < MAX_RETRIES cfg"
    using assms(1) by simp_all
  from request_loop_fail_step [OF l0 assms(2)] obtain s1 where
    s1: "request_loop cfg check_error env 0 s = request_loop cfg check_error env (Suc 0) s1"
        "request_count s1 = request_count s + 1"
        "slept s1 = slept s @ [DELAY cfg * (real 0 + 2)]"
    by auto
  from assms(3) have f1: "attempt_fails check_error env (request_count s1)" by (simp add: s1(2))
  from request_loop_fail_step [OF l1 f1] obtain s2 where
    s2: "request_loop cfg check_error env (Suc 0) s1 = request_loop cfg check_error env (Suc (Suc 0)) s2"
        "request_count s2 = request_count s1 + 1"
        "slept s2 = slept s1 @ [DELAY cfg * (real (Suc 0) + 2)]"
    by auto
  have r2: "session_request env (request_count s2) = Inr r"
    using assms(4) by (simp add: s1(2) s2(2))
  have ok: "request_loop cfg check_error env (Suc (Suc 0)) s2 =
          (Inr r, sleep (DELAY cfg * (1 / 2 + random env (request_count s2)))
                    (s2\<lparr>request_count := request_count s2 + 1\<rparr>))"
    using l2 r2 assms(5) by (rule request_loop_ok)
  have "request cfg check_error env s =
          (Inr r, sleep (DELAY cfg * (1 / 2 + random env (request_count s2)))
                    (s2\<lparr>request_count := request_count s2 + 1\<rparr>))"
    unfolding request_def s1(1) s2(1) ok ..
  then show ?thesis
    by (simp add: sleep_def s1 s2)
qed

theorem request_third_attempt_witness:
  "fst (request default_config flaky_check_error flaky_env init_crawler)
      = Inr \<lparr>content_type = Some ''application/json'', json = Inr False\<rparr>
   \<and> slept (snd (request default_config flaky_check_error flaky_env init_crawler)) = [4, 6, 3 / 2]"
  using request_third_attempt [of default_config flaky_check_error flaky_env init_crawler
          "\<lparr>content_type = Some ''application/json'', json = Inr False\<rparr>"]
  by (simp add: attempt_fails_def flaky_env_def flaky_check_error_def default_config_def init_crawler_def)

text \<open>
  C8, as stated, fails: with the defaults (\<^verbatim>\<open>DELAY\<close> 2, ceiling 3) the sleep after
  the first failed attempt, where the attempt counter is 0, is 4 seconds, not
  \<^verbatim>\<open>DELAY\<close> times (0 + 1) = 2.
\<close>

theorem request_backoff_counterexample:
  "slept (snd (request default_config flaky_check_error flaky_env init_crawler)) ! 0
     \<noteq> DELAY default_config * (0 + 1)"
  by (simp add: request_def request_loop.simps [of _ _ _ 0] request_loop.simps [of _ _ _ "Suc 0"]
        request_loop.simps [of _ _ _ "Suc (Suc 0)"] flaky_env_def flaky_check_error_def default_config_def
        init_crawler_def sleep_def Let_def)


section \<open>Properties of the pagination loop and of the accumulator\<close>










lemma drop_duplicates_idem: "distinct xs \<Longrightarrow> drop_duplicates xs = xs"
  by (induction xs rule: drop_duplicates.induct) (auto simp: filter_id_conv)



lemma request_ok:
  assumes "0 < MAX_RETRIES cfg" and "session_request env (request_count s) = Inr r"
      and "ce r = Inr False"
  shows "request cfg ce env s =
           (Inr r, sleep (DELAY cfg * (1 / 2 + random env (request_count s)))
                     (s\<lparr>request_count := request_count s + 1\<rparr>))"
  unfolding request_def using assms by (rule request_loop_ok)

lemma get_json_page:
  "get_json (page ns h c) =
     Inr (Some \<lparr>nodes = Some ns, pageInfo = Some \<lparr>hasNextPage = Some h, endCursor = Some c\<rparr>\<rparr>)"
  by (simp add: get_json_def page_def)

lemma get_json_html_page:
  "get_json html_page = Inl (QueryError (UNEXPECTED_CONTENT_TYPE_ERROR_MESSAGE ''text/html''))"
  by (simp add: get_json_def html_page_def)

lemma crawl_next_page:
  assumes "0 < MAX_RETRIES cfg"
      and "session_request env (request_count s) = Inr (page (n # ns) True c)"
  shows "crawl cfg env s =
           (Inr True,
            (parse_data (n # ns)
               (sleep (DELAY cfg * (1 / 2 + random env (request_count s)))
                  (s\<lparr>request_count := request_count s + 1\<rparr>)))\<lparr>cursor := Some c\<rparr>)"
  using request_ok [OF assms, of virgio_check_error]
  by (simp add: crawl_def virgio_check_error_def get_json_page Let_def)

lemma crawl_empty_page:
  assumes "0 < MAX_RETRIES cfg"
      and "session_request env (request_count s) = Inr (page [] h c)"
  shows "crawl cfg env s =
           (Inr False,
            sleep (DELAY cfg * (1 / 2 + random env (request_count s)))
              (s\<lparr>request_count := request_count s + 1\<rparr>))"
  using request_ok [OF assms, of virgio_check_error]
  by (simp add: crawl_def virgio_check_error_def get_json_page)

lemma crawl_html_page:
  assumes "0 < MAX_RETRIES cfg"
      and "session_request env (request_count s) = Inr html_page"
  shows "crawl cfg env s =
           (Inl (QueryError (UNEXPECTED_CONTENT_TYPE_ERROR_MESSAGE ''text/html'')),
            sleep (DELAY cfg * (1 / 2 + random env (request_count s)))
              (s\<lparr>request_count := request_count s + 1\<rparr>))"
  using request_ok [OF assms, of virgio_check_error]
  by (simp add: crawl_def virgio_check_error_def get_json_html_page)

lemma run_three_pages:
  "run_loop (Suc (Suc (Suc k))) default_config (three_pages a b c rnd) init_crawler =
     Some (Inr (),
       \<lparr>request_count = 3,
        DATAFRAME = map parse_product [a, b, b, c],
        data_saved = False,
        cursor = Some ''c2'',
        user_agent_updates = 0,
        slept = [2 * (1 / 2 + rnd 0), 2, 2 * (1 / 2 + rnd 1), 2, 2 * (1 / 2 + rnd 2)],
        csv_files = []\<rparr>)"
proof -
  define env where "env = three_pages a b c rnd"
  define cfg where "cfg = default_config"
  have m: "0 < MAX_RETRIES cfg" by (simp add: cfg_def default_config_def)
  define s1 where "s1 = (parse_data [a, b]
               (sleep (DELAY cfg * (1 / 2 + random env (request_count init_crawler)))
                  (init_crawler\<lparr>request_count := request_count init_crawler + 1\<rparr>)))\<lparr>cursor := Some ''c1''\<rparr>"
  have p1: "session_request env (request_count init_crawler) = Inr (page [a, b] True ''c1'')"
    by (simp add: env_def three_pages_def serve_def init_crawler_def)
  have c1: "crawl cfg env init_crawler = (Inr True, s1)"
    unfolding s1_def by (rule crawl_next_page [OF m p1])
  define t1 where "t1 = sleep (DELAY cfg) s1"
  have rc1: "request_count t1 = 1"
    by (simp add: t1_def s1_def sleep_def parse_data_def init_crawler_def)
  define s2 where "s2 = (parse_data [b, c]
               (sleep (DELAY cfg * (1 / 2 + random env (request_count t1)))
                  (t1\<lparr>request_count := request_count t1 + 1\<rparr>)))\<lparr>cursor := Some ''c2''\<rparr>"
  have p2: "session_request env (request_count t1) = Inr (page [b, c] True ''c2'')"
    unfolding rc1 by (simp add: env_def three_pages_def serve_def)
  have c2: "crawl cfg env t1 = (Inr True, s2)"
    unfolding s2_def by (rule crawl_next_page [OF m p2])
  define t2 where "t2 = sleep (DELAY cfg) s2"
  have rc2: "request_count t2 = 2"
    by (simp add: t2_def s2_def sleep_def parse_data_def rc1)
  define s3 where "s3 = sleep (DELAY cfg * (1 / 2 + random env (request_count t2)))
               (t2\<lparr>request_count := request_count t2 + 1\<rparr>)"
  have p3: "session_request env (request_count t2) = Inr (page [] False [])"
    unfolding rc2 by (simp add: env_def three_pages_def serve_def)
  have c3: "crawl cfg env t2 = (Inr False, s3)"
    unfolding s3_def by (rule crawl_empty_page [OF m p3])
  have "run_loop (Suc (Suc (Suc k))) cfg env init_crawler = Some (Inr (), s3)"
    using c1 c2 c3 by (simp add: t1_def [symmetric] t2_def [symmetric])
  moreover have "s3 = \<lparr>request_count = 3,
        DATAFRAME = map parse_product [a, b, b, c],
        data_saved = False,
        cursor = Some ''c2'',
        user_agent_updates = 0,
        slept = [2 * (1 / 2 + rnd 0), 2, 2 * (1 / 2 + rnd 1), 2, 2 * (1 / 2 + rnd 2)],
        csv_files = []\<rparr>"
    unfolding s3_def rc2 unfolding t2_def s2_def rc1 unfolding t1_def s1_def
    by (simp add: sleep_def parse_data_def init_crawler_def default_config_def three_pages_def
          env_def cfg_def)
  ultimately show ?thesis by (simp add: env_def cfg_def)
qed








section \<open>Content-type errors and the retry path\<close>

lemma html_site_fails:
  "attempt_fails (tatacliq_check_error has_error) html_site n"
  by (simp add: attempt_fails_def html_site_def tatacliq_check_error_def get_json_html_page)

text \<open>
  C7, on the code. A response of content type \<^verbatim>\<open>text/html\<close> makes \<^verbatim>\<open>get_json\<close>
  raise \<^verbatim>\<open>QueryError\<close>. In \<^verbatim>\<open>VirgioCrawler.crawl\<close> the call of \<^verbatim>\<open>get_json\<close>
  comes after \<^verbatim>\<open>_request\<close> has returned: the exception leaves \<^verbatim>\<open>crawl\<close> after
  one request and the one jittered sleep, with no retry. With a \<^verbatim>\<open>check_error\<close>
  that calls \<^verbatim>\<open>get_json\<close>, as TataCliq's does, the same site is asked three times
  before the same exception leaves \<^verbatim>\<open>_request\<close>.
\<close>

theorem content_type_error_not_retried:
  "fst (crawl default_config html_site init_crawler)
     = Inl (QueryError (UNEXPECTED_CONTENT_TYPE_ERROR_MESSAGE ''text/html''))
   \<and> request_count (snd (crawl default_config html_site init_crawler)) = 1
   \<and> slept (snd (crawl default_config html_site init_crawler)) = [1]
   \<and> fst (request default_config (tatacliq_check_error (\<lambda>j. False)) html_site init_crawler)
     = Inl (QueryError (UNEXPECTED_CONTENT_TYPE_ERROR_MESSAGE ''text/html''))
   \<and> request_count (snd (request default_config (tatacliq_check_error (\<lambda>j. False)) html_site init_crawler)) = 3"
proof -
  have m: "0 < MAX_RETRIES default_config" by (simp add: default_config_def)
  have p: "session_request html_site (request_count init_crawler) = Inr html_page"
    by (simp add: html_site_def)
  have a: "\<forall>n < MAX_RETRIES default_config - 0.
             attempt_fails (tatacliq_check_error (\<lambda>j. False)) html_site (request_count init_crawler + n)"
    by (simp add: html_site_fails)
  from request_loop_all_fail [OF a m] obtain s' where
    "request_loop default_config (tatacliq_check_error (\<lambda>j. False)) html_site 0 init_crawler
       = (Inl (exhausted default_config (tatacliq_check_error (\<lambda>j. False)) html_site
                 (request_count init_crawler + (MAX_RETRIES default_config - 0) - 1)), s')"
    "request_count s' = request_count init_crawler + (MAX_RETRIES default_config - 0)"
    by blast
  then have sibling: "fst (request default_config (tatacliq_check_error (\<lambda>j. False)) html_site init_crawler)
     = Inl (QueryError (UNEXPECTED_CONTENT_TYPE_ERROR_MESSAGE ''text/html''))
   \<and> request_count (snd (request default_config (tatacliq_check_error (\<lambda>j. False)) html_site init_crawler)) = 3"
    by (simp add: request_def exhausted_def html_site_def tatacliq_check_error_def
          get_json_html_page default_config_def init_crawler_def)
  have c: "crawl default_config html_site init_crawler =
           (Inl (QueryError (UNEXPECTED_CONTENT_TYPE_ERROR_MESSAGE ''text/html'')),
            sleep (DELAY default_config * (1 / 2 + random html_site (request_count init_crawler)))
              (init_crawler\<lparr>request_count := request_count init_crawler + 1\<rparr>))"
    by (rule crawl_html_page [OF m p])
  have virgio: "fst (crawl default_config html_site init_crawler)
     = Inl (QueryError (UNEXPECTED_CONTENT_TYPE_ERROR_MESSAGE ''text/html''))
   \<and> request_count (snd (crawl default_config html_site init_crawler)) = 1
   \<and> slept (snd (crawl default_config html_site init_crawler)) = [1]"
    unfolding c by (simp add: sleep_def init_crawler_def default_config_def html_site_def)
  from virgio sibling show ?thesis by (intro conjI) (elim conjE, assumption)+
qed

section \<open>Properties of the registry and of the orchestrator\<close>

lemma upper_char_idem: "upper_char (upper_char c) = upper_char c"
proof (cases "map_of (zip ascii_lowercase ascii_uppercase) c")
  case None
  then show ?thesis by (simp add: upper_char_def)
next
  case (Some u)
  then have "(c, u) \<in> set (zip ascii_lowercase ascii_uppercase)"
    by (rule map_of_SomeD)
  then have u: "u \<in> set ascii_uppercase"
    by (rule set_zip_rightD)
  have "set ascii_uppercase \<inter> set ascii_lowercase = {}"
    by (simp add: ascii_uppercase_def ascii_lowercase_def)
  with u have "u \<notin> set ascii_lowercase" by blast
  then have "u \<notin> fst ` set (zip ascii_lowercase ascii_uppercase)"
    by (auto dest: set_zip_leftD)
  then have "map_of (zip ascii_lowercase ascii_uppercase) u = None"
    by (simp add: map_of_eq_None_iff)
  with Some show ?thesis by (simp add: upper_char_def)
qed

lemma upper_idem: "upper (upper s) = upper s"
  by (simp add: upper_def upper_char_idem)

lemma get_crawler_case_insensitive:
  "upper a = upper b \<Longrightarrow> get_crawler reg a = get_crawler reg b"
  by (simp add: get_crawler_def)

lemma register_well_keyed: "well_keyed reg \<Longrightarrow> well_keyed (register name cls reg)"
  unfolding well_keyed_def register_def
  by (auto simp: distinct_update dom_update upper_idem)

lemma foldl_register_well_keyed:
  "well_keyed reg \<Longrightarrow>
   well_keyed (foldl (\<lambda>reg (name, crawler_class). register name crawler_class reg) reg decls)"
  by (induction decls arbitrary: reg) (auto simp: register_well_keyed)

lemma registered_well_keyed: "well_keyed (registered decls)"
  unfolding registered_def by (rule foldl_register_well_keyed) (simp add: well_keyed_def)

lemma get_crawler_key:
  assumes "well_keyed reg" and "(c, cls) \<in> set reg"
  shows "get_crawler reg c = Some cls"
proof -
  from assms have "upper c = c" unfolding well_keyed_def by force
  moreover from assms have "map_of reg c = Some cls" unfolding well_keyed_def by simp
  ultimately show ?thesis by (simp add: get_crawler_def)
qed

lemma run_crawler_completes:
  "get_crawler reg c = Some cls \<Longrightarrow> worker cls = Some (Inr ()) \<Longrightarrow>
   run_crawler reg c = Some (Inr (c, True))"
  by (simp add: run_crawler_def run_crawler_try_def)

lemma run_crawler_faults:
  "get_crawler reg c = Some cls \<Longrightarrow> worker cls = Some (Inl e) \<Longrightarrow>
   run_crawler reg c = Some (Inr (c, False))"
  by (simp add: run_crawler_def run_crawler_try_def)

lemma run_crawler_unknown:
  "get_crawler reg c = None \<Longrightarrow> run_crawler reg c = Some (Inr (c, False))"
  by (simp add: run_crawler_def run_crawler_try_def)

lemma run_crawler_never_raises: "run_crawler reg c \<noteq> Some (Inl e)"
  by (simp add: run_crawler_def split: option.splits sum.splits)

lemma main_single_never_invalid: "main_single reg name = None \<or> main_single reg name = Some (Inr [])"
  using run_crawler_never_raises [of reg name]
  by (auto simp: main_single_def split: option.splits sum.splits prod.splits error.splits)


lemma reports_all:
  assumes "\<forall>c \<in> set cs. run_crawler reg c = Some (Inr (c, c \<noteq> f))"
  shows "reports reg cs =
           Some (map (\<lambda>c. if c = f then Failed_to_complete c else Successfully_completed c) cs)"
  using assms by (induction cs) auto

lemma filter_the_one: "distinct xs \<Longrightarrow> f \<in> set xs \<Longrightarrow> filter (\<lambda>c. c = f) xs = [f]"
  by (induction xs) (auto simp: filter_empty_conv)

lemma failures_of_reports:
  "filter is_failure (map (\<lambda>c. if c = f then Failed_to_complete c else Successfully_completed c) cs)
     = map Failed_to_complete (filter (\<lambda>c. c = f) cs)"
  by (induction cs) auto

lemma worker_three_pages:
  "worker (VirgioCrawler 3 default_config (three_pages a b c rnd)) = Some (Inr ())"
  by (simp add: worker_def init_def VirgioCrawler_def safe_run_def run_def numeral_3_eq_3
        run_three_pages del: run_loop.simps)

lemma run_html_site:
  "\<exists>s. run_loop (Suc k) default_config html_site init_crawler
         = Some (Inl (QueryError (UNEXPECTED_CONTENT_TYPE_ERROR_MESSAGE ''text/html'')), s)"
proof -
  have m: "0 < MAX_RETRIES default_config" by (simp add: default_config_def)
  have p: "session_request html_site (request_count init_crawler) = Inr html_page"
    by (simp add: html_site_def)
  show ?thesis
    unfolding run_loop.simps crawl_html_page [OF m p] by simp
qed

lemma worker_html_site:
  "worker (VirgioCrawler 3 default_config html_site)
     = Some (Inl (QueryError (UNEXPECTED_CONTENT_TYPE_ERROR_MESSAGE ''text/html'')))"
proof -
  from run_html_site [of "Suc (Suc 0)"] obtain s where
    "run_loop (Suc (Suc (Suc 0))) default_config html_site init_crawler
       = Some (Inl (QueryError (UNEXPECTED_CONTENT_TYPE_ERROR_MESSAGE ''text/html'')), s)"
    by blast
  then show ?thesis
    by (simp add: worker_def init_def VirgioCrawler_def safe_run_def run_def numeral_3_eq_3
          del: run_loop.simps)
qed

lemma upper_names:
  "upper ''shop_a'' = ''SHOP_A''" "upper ''virgio'' = ''VIRGIO''"
  "upper ''shop_b'' = ''SHOP_B''" "upper ''Virgio'' = ''VIRGIO''"
  "upper ''VIRGIO'' = ''VIRGIO''" "upper ''SHOP_A'' = ''SHOP_A''"
  "upper ''SHOP_B'' = ''SHOP_B''" "upper ''nosuch'' = ''NOSUCH''"
  by (simp_all add: upper_def upper_char_def ascii_lowercase_def ascii_uppercase_def)

lemma registered_three_crawlers:
  "registered three_crawlers =
     [(''SHOP_A'', VirgioCrawler 3 default_config (three_pages (item ''4'') (item ''5'') (item ''6'') (\<lambda>n. 0))),
      (''VIRGIO'', VirgioCrawler 3 default_config html_site),
      (''SHOP_B'', VirgioCrawler 3 default_config (three_pages (item ''1'') (item ''2'') (item ''3'') (\<lambda>n. 0)))]"
  by (simp add: registered_def three_crawlers_def register_def upper_names)

text \<open>
  C5. \<^verbatim>\<open>main --all\<close> over a registry of N adapters, one of which, \<open>f\<close>, raises (in
  its constructor or out of \<^verbatim>\<open>safe_run\<close>) while every other one completes: in
  whatever order the workers complete, \<^verbatim>\<open>main\<close> returns, after all of them, with one
  outcome for each of the N adapters; exactly one outcome is a failure, that of \<open>f\<close>, and
  every other adapter is reported as successfully completed.
\<close>

theorem one_fault_among_N:
  assumes "mset completed = mset (available_crawlers (registered decls))"
      and "(f, cls_f) \<in> set (registered decls)"
      and "worker cls_f = Some (Inl e)"
      and "\<forall>(c, cls) \<in> set (registered decls). c \<noteq> f \<longrightarrow> worker cls = Some (Inr ())"
  shows "\<exists>ls. main_all (registered decls) completed
                = Some (Running_all (available_crawlers (registered decls)) # ls)
           \<and> length ls = length (available_crawlers (registered decls))
           \<and> filter is_failure ls = [Failed_to_complete f]
           \<and> (\<forall>c \<in> set (available_crawlers (registered decls)).
                 c \<noteq> f \<longrightarrow> Successfully_completed c \<in> set ls)"
proof -
  let ?reg = "registered decls"
  let ?ls = "map (\<lambda>c. if c = f then Failed_to_complete c else Successfully_completed c) completed"
  have wk: "well_keyed ?reg" by (rule registered_well_keyed)
  have sets: "set completed = set (available_crawlers ?reg)"
    using assms(1) by (rule mset_eq_setD)
  have len: "length completed = length (available_crawlers ?reg)"
    using assms(1) by (rule mset_eq_length)
  have "distinct (available_crawlers ?reg)"
    using wk by (simp add: well_keyed_def available_crawlers_def)
  then have dist: "distinct completed"
    using assms(1) by (metis mset_eq_imp_distinct_iff)
  have fin: "f \<in> set completed"
    using assms(2) sets by (force simp: available_crawlers_def)
  have each: "\<forall>c \<in> set completed. run_crawler ?reg c = Some (Inr (c, c \<noteq> f))"
  proof
    fix c assume "c \<in> set completed"
    with sets obtain cls where cls: "(c, cls) \<in> set ?reg"
      by (auto simp: available_crawlers_def)
    have g: "get_crawler ?reg c = Some cls" using wk cls by (rule get_crawler_key)
    show "run_crawler ?reg c = Some (Inr (c, c \<noteq> f))"
    proof (cases "c = f")
      case True
      with g get_crawler_key [OF wk assms(2)] have "cls = cls_f" by simp
      with g assms(3) True show ?thesis by (simp add: run_crawler_faults)
    next
      case False
      with assms(4) cls have "worker cls = Some (Inr ())" by blast
      with g False show ?thesis by (simp add: run_crawler_completes)
    qed
  qed
  have main: "main_all ?reg completed = Some (Running_all (available_crawlers ?reg) # ?ls)"
    by (simp add: main_all_def reports_all [OF each])
  have fail: "filter is_failure ?ls = [Failed_to_complete f]"
    by (simp add: failures_of_reports filter_the_one [OF dist fin])
  have ok: "\<forall>c \<in> set (available_crawlers ?reg). c \<noteq> f \<longrightarrow> Successfully_completed c \<in> set ?ls"
    using sets by auto
  from main len fail ok show ?thesis
    by (intro exI [of _ ?ls]) simp
qed

theorem one_fault_among_N_witness:
  "mset [''SHOP_B'', ''VIRGIO'', ''SHOP_A''] = mset (available_crawlers (registered three_crawlers))
   \<and> (\<exists>ls. main_all (registered three_crawlers) [''SHOP_B'', ''VIRGIO'', ''SHOP_A'']
              = Some (Running_all [''SHOP_A'', ''VIRGIO'', ''SHOP_B''] # ls)
          \<and> length ls = 3
          \<and> filter is_failure ls = [Failed_to_complete ''VIRGIO''])"
proof -
  have av: "available_crawlers (registered three_crawlers) = [''SHOP_A'', ''VIRGIO'', ''SHOP_B'']"
    by (simp add: registered_three_crawlers available_crawlers_def)
  have h1: "mset [''SHOP_B'', ''VIRGIO'', ''SHOP_A''] = mset (available_crawlers (registered three_crawlers))"
    unfolding av by (simp add: add.commute)
  have h2: "(''VIRGIO'', VirgioCrawler 3 default_config html_site) \<in> set (registered three_crawlers)"
    by (simp add: registered_three_crawlers)
  have h4: "\<forall>(c, cls) \<in> set (registered three_crawlers).
              c \<noteq> ''VIRGIO'' \<longrightarrow> worker cls = Some (Inr ())"
    by (simp add: registered_three_crawlers worker_three_pages)
  from one_fault_among_N [OF h1 h2 worker_html_site h4] h1 show ?thesis
    unfolding av by auto
qed

text \<open>
  C9, on the code. Names are looked up through \<^verbatim>\<open>upper\<close>, so \<^verbatim>\<open>Virgio\<close> finds
  the class registered as \<^verbatim>\<open>virgio\<close>. For a name that is not registered,
  \<^verbatim>\<open>run_crawler\<close> raises \<^verbatim>\<open>KeyError\<close> inside its own \<^verbatim>\<open>try\<close> block, whose
  \<^verbatim>\<open>except Exception\<close> clause turns it into the result \<^verbatim>\<open>(name, False)\<close>: the
  same result as for a registered crawler that fails, and \<^verbatim>\<open>main\<close> never reaches its
  \<^verbatim>\<open>except KeyError\<close> handler ("Invalid crawler name").
\<close>

theorem unknown_crawler_ordinary_failure:
  "get_crawler (registered three_crawlers) ''nosuch'' = None
   \<and> run_crawler (registered three_crawlers) ''nosuch'' = Some (Inr (''nosuch'', False))
   \<and> main_single (registered three_crawlers) ''nosuch'' = Some (Inr [])
   \<and> get_crawler (registered three_crawlers) ''Virgio'' = Some (VirgioCrawler 3 default_config html_site)
   \<and> run_crawler (registered three_crawlers) ''Virgio'' = Some (Inr (''Virgio'', False))
   \<and> main_single (registered three_crawlers) ''Virgio'' = Some (Inr [])"
proof -
  have g: "get_crawler (registered three_crawlers) ''nosuch'' = None"
    by (simp add: get_crawler_def registered_three_crawlers upper_names)
  have v: "get_crawler (registered three_crawlers) ''Virgio'' = Some (VirgioCrawler 3 default_config html_site)"
    by (simp add: get_crawler_def registered_three_crawlers upper_names)
  have r1: "run_crawler (registered three_crawlers) ''nosuch'' = Some (Inr (''nosuch'', False))"
    using g by (rule run_crawler_unknown)
  have r2: "run_crawler (registered three_crawlers) ''Virgio'' = Some (Inr (''Virgio'', False))"
    using v worker_html_site by (rule run_crawler_faults)
  have m1: "main_single (registered three_crawlers) ''nosuch'' = Some (Inr [])"
    unfolding main_single_def r1 by simp
  have m2: "main_single (registered three_crawlers) ''Virgio'' = Some (Inr [])"
    unfolding main_single_def r2 by simp
  from g v r1 r2 m1 m2 show ?thesis by (intro conjI)
qed

end
